theory Spec2Isabelle
  imports Main "HOL-Library.Sublist"
begin

section \<open>Python values, exceptions and the collaborators of \<open>plugins.py\<close>\<close>

text \<open>
  The module \<open>lib/charms/layer/jenkins/plugins.py\<close> drives three collaborators that are
  not part of the file: the update-center client of \<open>jenkins_plugin_manager\<close>, the
  charm's \<open>Api\<close> object and the operating system (files, environment, \<open>urllib\<close>).
  They are parameters of the model: records of functions. Every function of the module is
  a definition below that keeps the source's name and the order of its statements.
\<close>

type_synonym path = string

datatype error =
    PluginSiteError
  | HTTPError
  | URLError
  | KeyError string
  | RecursionError
  | FileNotFoundError
  | IsADirectoryError
  | OtherError string

text \<open>
  The three kinds of iterable that reach \<open>_get_plugins_to_install\<close>: the
  \<open>itertools.chain\<close> object built by \<open>install\<close>, a list (\<open>str.split()\<close>) and a set. A set
  is kept as the list of its elements in the order a loop visits them.
\<close>

datatype iterable = Chain "string list" | PyList "string list" | PySet "string list"

text \<open>What a \<open>for\<close> loop over the value visits the first time it is iterated.\<close>

fun py_iter :: "iterable \<Rightarrow> string list" where
  "py_iter (Chain xs) = xs"
| "py_iter (PyList xs) = xs"
| "py_iter (PySet xs) = xs"

text \<open>
  What a loop visits once the value has been iterated before: a chain is an iterator and
  is exhausted, lists and sets start again.
\<close>

fun py_iter_again :: "iterable \<Rightarrow> string list" where
  "py_iter_again (Chain xs) = []"
| "py_iter_again (PyList xs) = xs"
| "py_iter_again (PySet xs) = xs"

text \<open>
  Python's \<open>==\<close> between the argument and a value freshly returned by the client: lists are
  equal when they hold the same elements in the same order, sets when they hold the same
  elements, a list never equals a set, and a chain object equals only itself.
\<close>

fun py_eq :: "iterable \<Rightarrow> iterable \<Rightarrow> bool" where
  "py_eq (PyList xs) (PyList ys) = (xs = ys)"
| "py_eq (PySet xs) (PySet ys) = (set xs = set ys)"
| "py_eq _ _ = False"

text \<open>
  The value \<open>_install_plugin\<close> hands back: \<open>None\<close> when it falls off its end, otherwise
  what \<open>download_plugin\<close> returned, a path or a false value.
\<close>

datatype pyret = RNone | RFalse | RPath path

fun truthy :: "pyret \<Rightarrow> bool" where
  "truthy RNone = False"
| "truthy RFalse = False"
| "truthy (RPath p) = (p \<noteq> [])"

text \<open>
  \<open>jenkins_plugin_manager.plugin.UpdateCenter\<close>, the client of the package index. Its
  calls may raise. \<open>get_plugins\<close> receives the names its argument yields;
  \<open>get_plugin_data\<close> returns the metadata dictionary of a plugin (its string-valued
  entries).
\<close>

record update_center =
  get_plugins :: "string list \<Rightarrow> error + iterable"
  get_plugin_data :: "string \<Rightarrow> error + (string \<rightharpoonup> string)"
  check_min_core_version :: "string \<Rightarrow> string \<Rightarrow> bool"
  download_plugin :: "string \<Rightarrow> path \<Rightarrow> error + pyret"

text \<open>
  \<open>charms.layer.jenkins.api.Api\<close>: the version of the running Jenkins and the installed
  version of a plugin (\<open>None\<close> stands for the false value the charm gets for a plugin that
  is not installed). \<open>restart\<close> is counted in the world below.
\<close>

record api =
  version :: string
  get_plugin_version :: "string \<Rightarrow> string option"

text \<open>The keys of \<open>hookenv.config()\<close> the module reads.\<close>

record config =
  cfg_proxy_hostname :: string
  cfg_proxy_port :: string
  cfg_proxy_username :: string
  cfg_proxy_password :: string
  cfg_plugins_site :: string
  cfg_plugins :: string
  cfg_plugins_auto_update :: bool
  cfg_remove_unlisted_plugins :: string

text \<open>
  The surroundings of one hook run: the configuration, the constant \<open>paths.PLUGINS\<close>
  (declared in the charm's \<open>paths\<close> module), the \<open>Api\<close> object, and the number of nested
  calls of \<open>_get_plugins_to_install\<close> that the interpreter's recursion limit
  (\<open>sys.getrecursionlimit()\<close>, 1000 unless changed) still allows where \<open>install\<close> calls it.
\<close>

record env =
  hookenv_config :: config
  PLUGINS :: path
  Api :: api
  stack_frames :: nat

text \<open>
  The state the module changes: directory entries (path and kind), the messages given to
  \<open>hookenv.log\<close> (oldest first), the number of \<open>Api().restart()\<close> calls, the plugin names
  passed to \<open>download_plugin\<close> and the \<open>http_proxy\<close> environment variable.
\<close>

datatype ftype = File | Dir

record world =
  fs :: "(path \<times> ftype) list"
  messages :: "string list"
  restarts :: nat
  downloads :: "string list"
  http_proxy :: "string option"

section \<open>Strings\<close>

text \<open>
  A character is a code point below 256. \<open>str.split()\<close> with no argument: runs of
  whitespace separate the words, no empty word is produced. The whitespace code points
  below 256 are the ASCII ones, U+0085 and U+00A0.
\<close>

definition is_space :: "char \<Rightarrow> bool" where
  "is_space c = (c \<in> set [CHR 0x09, CHR 0x0A, CHR 0x0B, CHR 0x0C, CHR 0x0D,
                            CHR 0x1C, CHR 0x1D, CHR 0x1E, CHR 0x1F, CHR 0x20,
                            CHR 0x85, CHR 0xA0])"

fun split_from :: "string \<Rightarrow> string \<Rightarrow> string list" where
  "split_from cur [] = (if cur = [] then [] else [cur])"
| "split_from cur (c # cs) =
     (if is_space c then (if cur = [] then split_from [] cs else cur # split_from [] cs)
      else split_from (cur @ [c]) cs)"

definition py_split :: "string \<Rightarrow> string list" where
  "py_split s = split_from [] s"

text \<open>\<open>sep.join(xs)\<close>.\<close>

fun py_join :: "string \<Rightarrow> string list \<Rightarrow> string" where
  "py_join sep [] = []"
| "py_join sep [x] = x"
| "py_join sep (x # y # ys) = x @ sep @ py_join sep (y # ys)"

text \<open>
  \<open>repr\<close> of a string: single quotes unless the string holds a single quote and no
  double quote; the quote and the backslash are escaped, and a code point that is not
  printable (below U+0020, from U+007F to U+00A0, and U+00AD) is written \<open>\n\<close>, \<open>\r\<close>,
  \<open>\t\<close> or \<open>\xNN\<close>.
\<close>

definition hex_digit :: "nat \<Rightarrow> char" where
  "hex_digit n = (''0123456789abcdef'' ! (n mod 16))"

definition py_repr_char :: "char \<Rightarrow> char \<Rightarrow> string" where
  "py_repr_char q c =
     (if c = q \<or> c = CHR 0x5C then [CHR 0x5C, c]
      else if c = CHR 0x0A then [CHR 0x5C, CHR ''n'']
      else if c = CHR 0x0D then [CHR 0x5C, CHR ''r'']
      else if c = CHR 0x09 then [CHR 0x5C, CHR ''t'']
      else if of_char c < (32::nat) \<or> ((127::nat) \<le> of_char c \<and> of_char c \<le> (160::nat))
              \<or> of_char c = (173::nat)
        then [CHR 0x5C, CHR ''x'', hex_digit (of_char c div 16), hex_digit (of_char c)]
      else [c])"

definition py_repr :: "string \<Rightarrow> string" where
  "py_repr s =
     (let q = (if CHR 0x27 \<in> set s \<and> CHR 0x22 \<notin> set s then CHR 0x22 else CHR 0x27)
      in [q] @ concat (map (py_repr_char q) s) @ [q])"

text \<open>\<open>str\<close> of a list of strings, as \<open>"{}".format(xs)\<close> prints it.\<close>

definition py_str_list :: "string list \<Rightarrow> string" where
  "py_str_list xs = ''['' @ py_join '', '' (map py_repr xs) @ '']''"

text \<open>\<open>x.endswith(suffixes)\<close> with a tuple of suffixes.\<close>

definition endswith :: "string \<Rightarrow> string list \<Rightarrow> bool" where
  "endswith x names = list_ex (\<lambda>s. suffix s x) names"

section \<open>Files\<close>

definition os_path_isfile :: "path \<Rightarrow> world \<Rightarrow> bool" where
  "os_path_isfile p w = (map_of (fs w) p = Some File)"

text \<open>
  \<open>os.remove\<close>: raises for a missing path and for a directory, removes a regular file
  (permissions are not part of the world).
\<close>

definition os_remove :: "path \<Rightarrow> world \<Rightarrow> error + world" where
  "os_remove p w =
     (case map_of (fs w) p of
        None \<Rightarrow> Inl FileNotFoundError
      | Some Dir \<Rightarrow> Inl IsADirectoryError
      | Some File \<Rightarrow> Inr (w\<lparr>fs := filter (\<lambda>e. fst e \<noteq> p) (fs w)\<rparr>))"

text \<open>A download that returns a path has written a regular file there.\<close>

definition place_file :: "path \<Rightarrow> world \<Rightarrow> world" where
  "place_file p w = w\<lparr>fs := (p, File) # filter (\<lambda>e. fst e \<noteq> p) (fs w)\<rparr>"

text \<open>\<open>host.mkdir\<close> creates the directory when nothing is at the path.\<close>

definition host_mkdir :: "path \<Rightarrow> world \<Rightarrow> world" where
  "host_mkdir d w = (if map_of (fs w) d = None then w\<lparr>fs := fs w @ [(d, Dir)]\<rparr> else w)"

text \<open>
  The name of an entry directly inside directory \<open>d\<close>, and the pattern \<open>*.[h|j]pi\<close> on it:
  the character class holds \<open>h\<close>, \<open>|\<close> and \<open>j\<close>, and a leading dot is not matched by \<open>*\<close>.
\<close>

definition entry_name :: "path \<Rightarrow> path \<Rightarrow> string option" where
  "entry_name d p =
     (if prefix (d @ ''/'') p
      then (let n = drop (length d + 1) p
            in if n = [] \<or> CHR ''/'' \<in> set n then None else Some n)
      else None)"

definition plugin_pattern :: "string \<Rightarrow> bool" where
  "plugin_pattern n =
     (case n of
        [] \<Rightarrow> False
      | c # cs \<Rightarrow> c \<noteq> CHR ''.'' \<and> (suffix ''.hpi'' n \<or> suffix ''.|pi'' n \<or> suffix ''.jpi'' n))"

text \<open>\<open>set(glob.glob("%s/*.[h|j]pi" % paths.PLUGINS))\<close>, in the order the entries are listed.\<close>

definition glob_plugins :: "path \<Rightarrow> world \<Rightarrow> path list" where
  "glob_plugins d w =
     remdups (filter (\<lambda>p. case entry_name d p of None \<Rightarrow> False | Some n \<Rightarrow> plugin_pattern n)
                     (map fst (fs w)))"

definition hookenv_log :: "string \<Rightarrow> world \<Rightarrow> world" where
  "hookenv_log m w = w\<lparr>messages := messages w @ [m]\<rparr>"

definition Api_restart :: "world \<Rightarrow> world" where
  "Api_restart w = w\<lparr>restarts := Suc (restarts w)\<rparr>"

section \<open>The module\<close>

definition REQUIRED_PLUGINS :: "string list" where
  "REQUIRED_PLUGINS = [''instance-identity'']"

subsection \<open>Metadata lookups\<close>

definition get_plugin_info :: "update_center \<Rightarrow> string \<Rightarrow> error + (string \<rightharpoonup> string)" where
  "get_plugin_info uc plugin = get_plugin_data uc plugin"

definition get_latest_version :: "update_center \<Rightarrow> string \<Rightarrow> error + string" where
  "get_latest_version uc plugin =
     (case get_plugin_info uc plugin of
        Inl e \<Rightarrow> Inl e
      | Inr d \<Rightarrow> (case d ''version'' of None \<Rightarrow> Inl (KeyError ''version'') | Some v \<Rightarrow> Inr v))"

definition get_required_jenkins :: "update_center \<Rightarrow> string \<Rightarrow> error + string" where
  "get_required_jenkins uc plugin =
     (case get_plugin_info uc plugin of
        Inl e \<Rightarrow> Inl e
      | Inr d \<Rightarrow>
          (case d ''requiredCore'' of None \<Rightarrow> Inl (KeyError ''requiredCore'') | Some v \<Rightarrow> Inr v))"

subsection \<open>\<open>_exclude_incompatible_plugins\<close>\<close>

text \<open>The \<open>for\<close> loop that collects \<open>excluded_plugins\<close>.\<close>

fun excluded_loop ::
  "update_center \<Rightarrow> string \<Rightarrow> string list \<Rightarrow> string list \<Rightarrow> error + string list" where
  "excluded_loop uc jenkins_version [] excluded_plugins = Inr excluded_plugins"
| "excluded_loop uc jenkins_version (plugin # rest) excluded_plugins =
     (case get_required_jenkins uc plugin of
        Inl e \<Rightarrow> Inl e
      | Inr required_version \<Rightarrow>
          if \<not> check_min_core_version uc jenkins_version required_version
          then excluded_loop uc jenkins_version rest (excluded_plugins @ [plugin])
          else excluded_loop uc jenkins_version rest excluded_plugins)"

definition exclude_incompatible_plugins ::
  "update_center \<Rightarrow> api \<Rightarrow> string list \<Rightarrow> error + (string list \<times> string list)" where
  "exclude_incompatible_plugins uc a plugins =
     (case excluded_loop uc (version a) plugins [] of
        Inl e \<Rightarrow> Inl e
      | Inr excluded_plugins \<Rightarrow>
          Inr (filter (\<lambda>plugin. plugin \<notin> set excluded_plugins) plugins, excluded_plugins))"

subsection \<open>\<open>_get_plugins_to_install\<close>\<close>

text \<open>
  The recursion of the source, one interpreter frame per round. \<open>frames\<close> is the number
  of nested calls the recursion limit still allows: a call made when none is left raises
  \<open>RecursionError\<close>.
\<close>

fun get_plugins_to_install ::
  "update_center \<Rightarrow> api \<Rightarrow> nat \<Rightarrow> iterable \<Rightarrow> error + (string list \<times> string list)" where
  "get_plugins_to_install uc a 0 plugins = Inl RecursionError"
| "get_plugins_to_install uc a (Suc frames) plugins =
     (case get_plugins uc (py_iter plugins) of
        Inl e \<Rightarrow> Inl e
      | Inr plugins_and_dependencies \<Rightarrow>
          if py_eq plugins plugins_and_dependencies
          then exclude_incompatible_plugins uc a (py_iter_again plugins)
          else get_plugins_to_install uc a frames plugins_and_dependencies)"

subsection \<open>\<open>_install_plugin\<close> and \<open>_install_plugins\<close>\<close>

text \<open>\<open>not plugin_version\<close>: no version, or the empty string.\<close>

definition py_not :: "string option \<Rightarrow> bool" where
  "py_not v = (v = None \<or> v = Some [])"

text \<open>
  The call \<open>self.update_center.download_plugin(plugin, paths.PLUGINS, with_version=False)\<close>:
  the call is recorded, and a path it returns is a regular file from then on.
\<close>

definition call_download_plugin ::
  "update_center \<Rightarrow> string \<Rightarrow> path \<Rightarrow> world \<Rightarrow> (error + pyret) \<times> world" where
  "call_download_plugin uc plugin dst w =
     (let w1 = w\<lparr>downloads := downloads w @ [plugin]\<rparr>
      in case download_plugin uc plugin dst of
           Inl e \<Rightarrow> (Inl e, w1)
         | Inr (RPath p) \<Rightarrow> (Inr (RPath p), if p \<noteq> [] then place_file p w1 else w1)
         | Inr r \<Rightarrow> (Inr r, w1))"

definition install_plugin ::
  "env \<Rightarrow> update_center \<Rightarrow> string \<Rightarrow> bool \<Rightarrow> world \<Rightarrow> (error + pyret) \<times> world" where
  "install_plugin e uc plugin update w =
     (let plugin_version = get_plugin_version (Api e) plugin
      in case get_latest_version uc plugin of
           Inl err \<Rightarrow> (Inl err, w)
         | Inr latest_version \<Rightarrow>
             if py_not plugin_version \<or> (update \<and> plugin_version \<noteq> Some latest_version)
             then call_download_plugin uc plugin (PLUGINS e)
                    (hookenv_log (''Installing plugin '' @ plugin @ ''-'' @ latest_version) w)
             else (Inr RNone,
                   hookenv_log (''Plugin '' @ plugin @ ''-'' @ the plugin_version
                                @ '' already installed'') w))"

text \<open>The \<open>for\<close> loop of \<open>_install_plugins\<close>; an exception of \<open>_install_plugin\<close> ends it.\<close>

fun install_plugins_loop ::
  "env \<Rightarrow> update_center \<Rightarrow> bool \<Rightarrow> string list \<Rightarrow> path list \<Rightarrow> world
     \<Rightarrow> (error + path list) \<times> world" where
  "install_plugins_loop e uc update [] plugin_paths w = (Inr plugin_paths, w)"
| "install_plugins_loop e uc update (plugin # rest) plugin_paths w =
     (case install_plugin e uc plugin update w of
        (Inl err, w1) \<Rightarrow> (Inl err, w1)
      | (Inr RNone, w1) \<Rightarrow> install_plugins_loop e uc update rest plugin_paths w1
      | (Inr plugin_path, w1) \<Rightarrow>
          if truthy plugin_path
          then install_plugins_loop e uc update rest
                 (case plugin_path of
                    RPath p \<Rightarrow> (if p \<in> set plugin_paths then plugin_paths else plugin_paths @ [p])
                  | _ \<Rightarrow> plugin_paths) w1
          else install_plugins_loop e uc update rest plugin_paths
                 (hookenv_log (''Failed to download '' @ plugin) w1))"

text \<open>\<open>host.chownr\<close> changes owners only, which the world does not record.\<close>

definition install_plugins ::
  "env \<Rightarrow> update_center \<Rightarrow> string list \<Rightarrow> world \<Rightarrow> (error + path list) \<times> world" where
  "install_plugins e uc plugin_names w =
     install_plugins_loop e uc (cfg_plugins_auto_update (hookenv_config e)) plugin_names []
       (hookenv_log (''Installing plugins ('' @ py_join '' '' plugin_names @ '')'') w)"

subsection \<open>\<open>_remove_plugin\<close> and \<open>_remove_plugins\<close>\<close>

definition remove_plugin :: "path \<Rightarrow> world \<Rightarrow> error + world" where
  "remove_plugin p w =
     (if \<not> os_path_isfile p w then Inr w
      else os_remove p (hookenv_log (''Deleting unlisted plugin '' @ [CHR 0x27] @ p @ [CHR 0x27]) w))"

fun remove_plugins :: "path list \<Rightarrow> world \<Rightarrow> error + world" where
  "remove_plugins [] w = Inr w"
| "remove_plugins (p # ps) w =
     (case remove_plugin p w of Inl err \<Rightarrow> Inl err | Inr w1 \<Rightarrow> remove_plugins ps w1)"

subsection \<open>\<open>install\<close>\<close>

text \<open>Line 72: \<open>itertools.chain(REQUIRED_PLUGINS, (plugins or "").split())\<close>.\<close>

definition requested_plugins :: "string option \<Rightarrow> iterable" where
  "requested_plugins arg =
     Chain (REQUIRED_PLUGINS @ py_split (case arg of None \<Rightarrow> [] | Some s \<Rightarrow> s))"

definition incompatible_message :: "string list \<Rightarrow> string" where
  "incompatible_message incompatible_plugins =
     ''The following plugins require a higher jenkins version and were not installed: (''
       @ py_join '' '' incompatible_plugins @ '')''"

definition unlisted_message :: "path list \<Rightarrow> string" where
  "unlisted_message unlisted_plugins =
     ''Unlisted plugins: ('' @ py_join '', '' unlisted_plugins
       @ '') Not removed. Set remove-unlisted-plugins to ''
       @ [CHR 0x27] @ ''yes'' @ [CHR 0x27] @ '' to clear them away.''"

text \<open>
  Lines 88 to 99, after \<open>_install_plugins\<close> has returned. \<open>configured_plugins\<close> is the pair
  that \<open>_get_plugins_to_install\<close> returned for the configured list; \<open>map\<close> runs over its
  two components, so \<open>plugin_file_names\<close> holds one formatted name per component.
\<close>

definition plugin_file_names :: "string list \<times> string list \<Rightarrow> string list" where
  "plugin_file_names configured_plugins =
     map (\<lambda>x. ''/'' @ py_str_list x @ ''.jpi'') [fst configured_plugins, snd configured_plugins]"

definition reconcile ::
  "env \<Rightarrow> string list \<times> string list \<Rightarrow> path list \<Rightarrow> world \<Rightarrow> (error + path list) \<times> world" where
  "reconcile e configured_plugins existing_plugins w =
     (let installed_plugins =
            filter (\<lambda>x. endswith x (plugin_file_names configured_plugins)) existing_plugins;
          unlisted_plugins = filter (\<lambda>x. x \<notin> set installed_plugins) existing_plugins
      in if unlisted_plugins \<noteq> []
         then (if cfg_remove_unlisted_plugins (hookenv_config e) = ''yes''
               then (case remove_plugins unlisted_plugins w of
                       Inl err \<Rightarrow> (Inl err, w)
                     | Inr w1 \<Rightarrow> (Inr installed_plugins, w1))
               else (Inr installed_plugins, hookenv_log (unlisted_message unlisted_plugins) w))
         else (Inr installed_plugins, w))"

text \<open>
  \<open>install\<close>: the exception or the returned pair, with the world as the run left it.
\<close>

definition install ::
  "env \<Rightarrow> update_center \<Rightarrow> string option \<Rightarrow> world
     \<Rightarrow> (error + (path list \<times> string list)) \<times> world" where
  "install e uc arg w =
     (let w0 = hookenv_log ''Starting plugins installation process'' w
      in case get_plugins_to_install uc (Api e) (stack_frames e) (requested_plugins arg) of
           Inl err \<Rightarrow> (Inl err, w0)
         | Inr (plugin_names, incompatible_plugins) \<Rightarrow>
             (let w1 = (if length incompatible_plugins \<noteq> 0
                        then hookenv_log (incompatible_message incompatible_plugins) w0
                        else w0)
              in case get_plugins_to_install uc (Api e) (stack_frames e)
                        (PyList (py_split (cfg_plugins (hookenv_config e)))) of
                   Inl err \<Rightarrow> (Inl err, w1)
                 | Inr configured_plugins \<Rightarrow>
                     (let w2 = host_mkdir (PLUGINS e) w1;
                          existing_plugins = glob_plugins (PLUGINS e) w2
                      in case install_plugins e uc plugin_names w2 of
                           (Inl err, w3) \<Rightarrow>
                             (Inl err,
                              hookenv_log
                                ''Plugin installation failed, check logs for details'' w3)
                         | (Inr plugin_paths, w3) \<Rightarrow>
                             (case reconcile e configured_plugins existing_plugins w3 of
                                (Inl err, w4) \<Rightarrow> (Inl err, w4)
                              | (Inr installed_plugins, w4) \<Rightarrow>
                                  (Inr (installed_plugins, incompatible_plugins),
                                   Api_restart w4)))))"

subsection \<open>\<open>Plugins.__init__\<close>\<close>

text \<open>
  The network as the constructor meets it: \<open>urllib.request.urlopen\<close> opens the address or
  raises, and \<open>UpdateCenter(uc_url=...)\<close> (no address: the client's default) builds the
  client or raises.
\<close>

record net =
  urlopen :: "string \<Rightarrow> error option"
  UpdateCenter :: "string option \<Rightarrow> error + update_center"

definition proxy_address :: "config \<Rightarrow> string option" where
  "proxy_address c =
     (if cfg_proxy_hostname c \<noteq> [] \<and> cfg_proxy_port c \<noteq> []
      then (if cfg_proxy_username c \<noteq> [] \<and> cfg_proxy_password c \<noteq> []
            then Some (''http://'' @ cfg_proxy_username c @ '':'' @ cfg_proxy_password c @ ''@''
                       @ cfg_proxy_hostname c @ '':'' @ cfg_proxy_port c)
            else Some (''http://'' @ cfg_proxy_hostname c @ '':'' @ cfg_proxy_port c))
      else None)"

text \<open>The clause \<open>except urllib.error.HTTPError: raise PluginSiteError()\<close>.\<close>

definition except_HTTPError :: "error \<Rightarrow> error" where
  "except_HTTPError err = (if err = HTTPError then PluginSiteError else err)"

definition Plugins_init :: "config \<Rightarrow> net \<Rightarrow> world \<Rightarrow> (error + update_center) \<times> world" where
  "Plugins_init c n w =
     (let w1 = (case proxy_address c of
                  Some address \<Rightarrow>
                    (hookenv_log (''Setting http_proxy env variable to '' @ address) w)
                      \<lparr>http_proxy := Some address\<rparr>
                | None \<Rightarrow>
                    (hookenv_log ''Unsetting http_proxy env variable if it was set'' w)
                      \<lparr>http_proxy := None\<rparr>)
      in if cfg_plugins_site c = ''https://updates.jenkins-ci.org/latest/''
         then (UpdateCenter n None, w1)
         else (let uc_url = cfg_plugins_site c @ ''/update-center.json''
               in case urlopen n uc_url of
                    Some err \<Rightarrow> (Inl (except_HTTPError err), w1)
                  | None \<Rightarrow>
                      (case UpdateCenter n (Some uc_url) of
                         Inl err \<Rightarrow> (Inl (except_HTTPError err), w1)
                       | Inr uc \<Rightarrow> (Inr uc, w1))))"

section \<open>A small installation, for evaluating the definitions\<close>

text \<open>
  An index with three plugins: \<open>git\<close> depends on \<open>scm-api\<close>, which needs Jenkins 3.0;
  the others need 2.0. A download always succeeds and lands in the directory it is given.
\<close>

definition demo_uc :: update_center where
  "demo_uc =
     \<lparr>get_plugins =
        (\<lambda>xs. Inr (PySet (remdups (xs @ (if ''git'' \<in> set xs then [''scm-api''] else []))))),
      get_plugin_data =
        (\<lambda>p. Inr (map_of [(''version'', ''1.0''),
                            (''requiredCore'', (if p = ''scm-api'' then ''3.0'' else ''2.0''))])),
      check_min_core_version = (\<lambda>jenkins_version required. required \<noteq> ''3.0''),
      download_plugin = (\<lambda>p dst. Inr (RPath (dst @ ''/'' @ p @ ''.jpi'')))\<rparr>"

definition demo_universe :: "string set" where
  "demo_universe = {''instance-identity'', ''git'', ''scm-api''}"

text \<open>Jenkins 2.0 with \<open>instance-identity\<close> 1.0 installed.\<close>

definition demo_api :: api where
  "demo_api =
     \<lparr>version = ''2.0'',
      get_plugin_version = (\<lambda>p. if p = ''instance-identity'' then Some ''1.0'' else None)\<rparr>"

definition demo_env :: "string \<Rightarrow> env" where
  "demo_env remove_unlisted =
     \<lparr>hookenv_config =
        \<lparr>cfg_proxy_hostname = [], cfg_proxy_port = [], cfg_proxy_username = [],
         cfg_proxy_password = [], cfg_plugins_site = ''https://updates.jenkins-ci.org/latest/'',
         cfg_plugins = ''git'', cfg_plugins_auto_update = False,
         cfg_remove_unlisted_plugins = remove_unlisted\<rparr>,
      PLUGINS = ''/var/lib/jenkins/plugins'',
      Api = demo_api,
      stack_frames = 1000\<rparr>"

text \<open>The plugin directory holds one file, \<open>unused.jpi\<close>.\<close>

definition demo_world :: world where
  "demo_world =
     \<lparr>fs = [(''/var/lib/jenkins/plugins'', Dir), (''/var/lib/jenkins/plugins/unused.jpi'', File)],
      messages = [], restarts = 0, downloads = [], http_proxy = None\<rparr>"

text \<open>A plugin site whose host cannot be reached: \<open>urlopen\<close> raises \<open>URLError\<close>.\<close>

definition unreachable_config :: config where
  "unreachable_config =
     \<lparr>cfg_proxy_hostname = [], cfg_proxy_port = [], cfg_proxy_username = [],
      cfg_proxy_password = [], cfg_plugins_site = ''http://plugins.invalid'',
      cfg_plugins = [], cfg_plugins_auto_update = False, cfg_remove_unlisted_plugins = ''no''\<rparr>"

definition unreachable_net :: net where
  "unreachable_net = \<lparr>urlopen = (\<lambda>url. Some URLError), UpdateCenter = (\<lambda>url. Inr demo_uc)\<rparr>"

text \<open>
  An index that is one chain of \<open>n\<close> plugins: the names are \<open>p\<close>, \<open>pp\<close>, ..., and each
  plugin but the last depends on the next one.
\<close>

definition chain_uc :: "nat \<Rightarrow> update_center" where
  "chain_uc n =
     demo_uc\<lparr>get_plugins :=
        (\<lambda>xs. Inr (PySet (remdups
                 (xs @ map (\<lambda>x. CHR ''p'' # x) (filter (\<lambda>x. length x < n) xs)))))\<rparr>"

definition chain_universe :: "nat \<Rightarrow> string set" where
  "chain_universe n = (\<lambda>k. replicate k CHR ''p'') ` {1..n}"

text \<open>
  A client over an unbounded universe: every answer holds one name more than it was given,
  a run of \<open>x\<close> longer than all the names together.
\<close>

definition growing_uc :: update_center where
  "growing_uc =
     demo_uc\<lparr>get_plugins :=
        (\<lambda>xs. Inr (PySet (replicate (Suc (sum_list (map length xs))) CHR ''x'' # xs)))\<rparr>"

section \<open>Facts for evaluating the definitions\<close>

lemma get_plugins_to_install_numeral:
  "get_plugins_to_install uc a (numeral k) plugins =
     (case get_plugins uc (py_iter plugins) of
        Inl e \<Rightarrow> Inl e
      | Inr plugins_and_dependencies \<Rightarrow>
          if py_eq plugins plugins_and_dependencies
          then exclude_incompatible_plugins uc a (py_iter_again plugins)
          else get_plugins_to_install uc a (pred_numeral k) plugins_and_dependencies)"
  by (simp add: numeral_eq_Suc)

lemmas demo_defs = demo_uc_def demo_api_def demo_env_def demo_world_def demo_universe_def

lemmas plan_defs =
  requested_plugins_def REQUIRED_PLUGINS_def py_split_def is_space_def
  exclude_incompatible_plugins_def get_required_jenkins_def get_plugin_info_def
  get_latest_version_def

lemma demo_plan:
  "get_plugins_to_install demo_uc demo_api 1000 (requested_plugins (Some ''git''))
     = Inr ([''instance-identity'', ''git''], [''scm-api''])"
  by (simp add: get_plugins_to_install_numeral demo_defs plan_defs)

lemma demo_plan_required:
  "get_plugins_to_install demo_uc demo_api 1000 (Chain REQUIRED_PLUGINS)
     = Inr ([''instance-identity''], [])"
  by (simp add: get_plugins_to_install_numeral demo_defs plan_defs)

lemma demo_plan_configured:
  "get_plugins_to_install demo_uc demo_api 1000 (PyList (py_split ''git''))
     = Inr ([''git''], [''scm-api''])"
  by (simp add: get_plugins_to_install_numeral demo_defs plan_defs)


lemma demo_oracle_extensive:
  "get_plugins demo_uc xs = Inr ys \<Longrightarrow> set xs \<subseteq> set (py_iter ys)"
  by (auto simp: demo_uc_def)

section \<open>The compatibility filter\<close>

lemma excluded_loop_set:
  "excluded_loop uc jv xs acc = Inr ex \<Longrightarrow> set acc \<subseteq> set ex \<and> set ex \<subseteq> set acc \<union> set xs"
proof (induction xs arbitrary: acc)
  case Nil
  then show ?case by simp
next
  case (Cons x xs)
  from Cons.prems obtain rv where rv: "get_required_jenkins uc x = Inr rv"
    by (auto split: sum.splits)
  show ?case
  proof (cases "check_min_core_version uc jv rv")
    case True
    with Cons.prems rv have "excluded_loop uc jv xs acc = Inr ex" by simp
    from Cons.IH [OF this] show ?thesis by auto
  next
    case False
    with Cons.prems rv have "excluded_loop uc jv xs (acc @ [x]) = Inr ex" by simp
    from Cons.IH [OF this] show ?thesis by auto
  qed
qed

lemma exclude_incompatible_plugins_partition:
  assumes "exclude_incompatible_plugins uc a xs = Inr (c, ex)"
  shows "set c \<inter> set ex = {}" and "set c \<union> set ex = set xs"
proof -
  from assms have loop: "excluded_loop uc (version a) xs [] = Inr ex"
    and c: "c = filter (\<lambda>plugin. plugin \<notin> set ex) xs"
    by (auto simp: exclude_incompatible_plugins_def split: sum.splits)
  from excluded_loop_set [OF loop] have "set ex \<subseteq> set xs" by simp
  with c show "set c \<inter> set ex = {}" and "set c \<union> set ex = set xs" by auto
qed

section \<open>The dependency expansion\<close>

lemma py_eq_iter_again: "py_eq p q \<Longrightarrow> py_iter_again p = py_iter p"
  by (cases p; cases q) auto

text \<open>
  One round of \<open>_get_plugins_to_install\<close> that does not raise: it returns the filtered
  argument, or goes on with the client's answer and one frame less.
\<close>

lemma plan_round:
  assumes "get_plugins_to_install uc a (Suc frames) plugins = Inr r"
  obtains pd where "get_plugins uc (py_iter plugins) = Inr pd" and "py_eq plugins pd"
      and "exclude_incompatible_plugins uc a (py_iter plugins) = Inr r"
    | pd where "get_plugins uc (py_iter plugins) = Inr pd" and "\<not> py_eq plugins pd"
      and "get_plugins_to_install uc a frames pd = Inr r"
proof (cases "get_plugins uc (py_iter plugins)")
  case (Inl e)
  with assms show ?thesis by simp
next
  case (Inr pd)
  show ?thesis
  proof (cases "py_eq plugins pd")
    case True
    with assms Inr that(1) show ?thesis by (simp add: py_eq_iter_again)
  next
    case False
    with assms Inr that(2) show ?thesis by simp
  qed
qed

lemma plan_disjoint_aux:
  "get_plugins_to_install uc a frames plugins = Inr (c, ex) \<Longrightarrow> set c \<inter> set ex = {}"
proof (induction frames arbitrary: plugins)
  case 0
  then show ?case by simp
next
  case (Suc frames)
  from Suc.prems show ?case
  proof (cases rule: plan_round)
    case (1 pd)
    then show ?thesis by (simp add: exclude_incompatible_plugins_partition(1))
  next
    case (2 pd)
    then show ?thesis by (simp add: Suc.IH)
  qed
qed

lemma plan_covers_input:
  assumes ext: "\<And>xs ys. get_plugins uc xs = Inr ys \<Longrightarrow> set xs \<subseteq> set (py_iter ys)"
  shows "get_plugins_to_install uc a frames plugins = Inr (c, ex) \<Longrightarrow>
           set (py_iter plugins) \<subseteq> set c \<union> set ex"
proof (induction frames arbitrary: plugins)
  case 0
  then show ?case by simp
next
  case (Suc frames)
  from Suc.prems show ?case
  proof (cases rule: plan_round)
    case (1 pd)
    from exclude_incompatible_plugins_partition(2) [OF 1(3)] show ?thesis by simp
  next
    case (2 pd)
    from ext [OF 2(1)] Suc.IH [OF 2(3)] show ?thesis by blast
  qed
qed

text \<open>
  With a client whose answer always differs from its argument as a set, every call ends
  in \<open>RecursionError\<close>, whatever the recursion limit.
\<close>

lemma plan_never_returns:
  assumes "\<And>xs. \<exists>ys. get_plugins uc xs = Inr (PySet ys) \<and> set ys \<noteq> set xs"
  shows "get_plugins_to_install uc a frames plugins = Inl RecursionError"
proof (induction frames arbitrary: plugins)
  case 0
  show ?case by simp
next
  case (Suc frames)
  from assms obtain ys where ys: "get_plugins uc (py_iter plugins) = Inr (PySet ys)"
    "set ys \<noteq> set (py_iter plugins)" by blast
  then have "\<not> py_eq plugins (PySet ys)" by (cases plugins) auto
  with ys Suc.IH show ?case by simp
qed

lemma length_le_sum_list: "x \<in> set xs \<Longrightarrow> length x \<le> sum_list (map length xs)"
  by (induction xs) auto

lemma growing_uc_get_plugins:
  "get_plugins growing_uc xs
     = Inr (PySet (replicate (Suc (sum_list (map length xs))) CHR ''x'' # xs))"
  by (simp add: growing_uc_def)

lemma growing_uc_never_returns:
  "get_plugins_to_install growing_uc a frames plugins = Inl RecursionError"
proof (rule plan_never_returns)
  fix xs :: "string list"
  define new where "new = replicate (Suc (sum_list (map length xs))) CHR ''x''"
  have len: "length new = Suc (sum_list (map length xs))" by (simp add: new_def)
  have "new \<notin> set xs"
  proof
    assume "new \<in> set xs"
    from length_le_sum_list [OF this] len show False by simp
  qed
  then have "set (new # xs) \<noteq> set xs" by auto
  moreover have "get_plugins growing_uc xs = Inr (PySet (new # xs))"
    unfolding new_def by (rule growing_uc_get_plugins)
  ultimately show "\<exists>ys. get_plugins growing_uc xs = Inr (PySet ys) \<and> set ys \<noteq> set xs"
    by blast
qed


text \<open>
  The chain index: its universe is finite and \<open>get_plugins\<close> answers with a set that holds
  what it was given, yet a request that starts the chain needs one frame per plugin.
\<close>

lemma chain_universe_finite: "finite (chain_universe n)"
  by (simp add: chain_universe_def)

lemma chain_uc_oracle:
  assumes "set xs \<subseteq> chain_universe n"
  shows "\<exists>ys. get_plugins (chain_uc n) xs = Inr (PySet ys) \<and> set xs \<subseteq> set ys
            \<and> set ys \<subseteq> chain_universe n"
proof -
  let ?ys = "remdups (xs @ map (\<lambda>x. CHR ''p'' # x) (filter (\<lambda>x. length x < n) xs))"
  have "CHR ''p'' # x \<in> chain_universe n" if "x \<in> set xs" "length x < n" for x
  proof -
    from that(1) assms obtain k where k: "x = replicate k CHR ''p''" "1 \<le> k" "k \<le> n"
      by (auto simp: chain_universe_def)
    with that(2) have "Suc k \<le> n" by simp
    moreover from k have "CHR ''p'' # x = replicate (Suc k) CHR ''p''" by simp
    ultimately show ?thesis
      unfolding chain_universe_def by (intro image_eqI [where x = "Suc k"]) auto
  qed
  with assms have "set ?ys \<subseteq> chain_universe n" by auto
  moreover have "get_plugins (chain_uc n) xs = Inr (PySet ?ys)" by (simp add: chain_uc_def)
  ultimately show ?thesis by auto
qed

lemma chain_start: "set (py_iter (PyList [''p''])) \<subseteq> chain_universe 2000"
proof -
  have "''p'' = replicate 1 CHR ''p''" by simp
  then have "''p'' \<in> chain_universe 2000"
    unfolding chain_universe_def by (intro image_eqI [where x = 1]) auto
  then show ?thesis by simp
qed








text \<open>
  C2. Whenever \<open>_get_plugins_to_install\<close> returns a pair, for the requested list of
  \<open>install\<close> or any other argument, the list of plugins to install and the list of excluded
  plugins have no name in common.
\<close>

theorem to_install_excluded_disjoint:
  assumes "get_plugins_to_install uc a frames plugins = Inr (to_install, excluded)"
  shows "set to_install \<inter> set excluded = {}"
  using plan_disjoint_aux [OF assms] .

theorem to_install_excluded_disjoint_witness:
  "get_plugins_to_install demo_uc demo_api 1000 (requested_plugins (Some ''git''))
     = Inr ([''instance-identity'', ''git''], [''scm-api''])
   \<and> set [''instance-identity'', ''git''] \<inter> set [''scm-api''] = {}"
  by (rule conjI [OF demo_plan to_install_excluded_disjoint [OF demo_plan]])

text \<open>
  C3. Let the client's \<open>get_plugins\<close> return, whenever it returns, a collection that holds
  the names it was given. Then for every argument of \<open>install\<close>, when the planning step
  returns its pair, every required plugin is in the list to install or in the excluded
  list.
\<close>

theorem required_plugins_carried:
  assumes "\<And>xs ys. get_plugins uc xs = Inr ys \<Longrightarrow> set xs \<subseteq> set (py_iter ys)"
    and "get_plugins_to_install uc a frames (requested_plugins arg) = Inr (to_install, excluded)"
  shows "set REQUIRED_PLUGINS \<subseteq> set to_install \<union> set excluded"
proof -
  from plan_covers_input [OF assms(1) assms(2)]
  have "set (py_iter (requested_plugins arg)) \<subseteq> set to_install \<union> set excluded" by blast
  then show ?thesis by (simp add: requested_plugins_def)
qed

theorem required_plugins_carried_witness:
  "get_plugins_to_install demo_uc demo_api 1000 (requested_plugins (Some ''git''))
     = Inr ([''instance-identity'', ''git''], [''scm-api''])
   \<and> set REQUIRED_PLUGINS \<subseteq> set [''instance-identity'', ''git''] \<union> set [''scm-api'']"
  by (rule conjI [OF demo_plan required_plugins_carried [OF demo_oracle_extensive demo_plan]])

section \<open>Files, messages and the glob\<close>

lemma map_of_filter_ne:
  "map_of (filter (\<lambda>e. fst e \<noteq> p) xs) q = (if q = p then None else map_of xs q)"
  by (induction xs) auto

lemma isfile_hookenv_log [simp]: "os_path_isfile q (hookenv_log m w) = os_path_isfile q w"
  by (simp add: os_path_isfile_def hookenv_log_def)

lemma fs_hookenv_log [simp]: "fs (hookenv_log m w) = fs w"
  by (simp add: hookenv_log_def)

lemma downloads_hookenv_log [simp]: "downloads (hookenv_log m w) = downloads w"
  by (simp add: hookenv_log_def)

lemma messages_hookenv_log [simp]: "messages (hookenv_log m w) = messages w @ [m]"
  by (simp add: hookenv_log_def)

lemma fs_Api_restart [simp]: "fs (Api_restart w) = fs w"
  by (simp add: Api_restart_def)

lemma messages_Api_restart [simp]: "messages (Api_restart w) = messages w"
  by (simp add: Api_restart_def)

lemma isfile_host_mkdir: "os_path_isfile q w \<Longrightarrow> os_path_isfile q (host_mkdir d w)"
  by (auto simp: os_path_isfile_def host_mkdir_def map_add_Some_iff)

lemma messages_host_mkdir [simp]: "messages (host_mkdir d w) = messages w"
  by (simp add: host_mkdir_def)

lemma isfile_place_file: "os_path_isfile q w \<Longrightarrow> os_path_isfile q (place_file p w)"
  by (simp add: os_path_isfile_def place_file_def map_of_filter_ne)

lemma messages_place_file [simp]: "messages (place_file p w) = messages w"
  by (simp add: place_file_def)

lemma entry_name_self: "entry_name d d = None"
proof -
  have "\<not> prefix (d @ ''/'') d"
    using prefix_length_le [of "d @ ''/''" d] by auto
  then show ?thesis by (simp add: entry_name_def)
qed

lemma glob_host_mkdir: "glob_plugins d (host_mkdir d w) = glob_plugins d w"
  by (simp add: glob_plugins_def host_mkdir_def entry_name_self)

lemma glob_hookenv_log [simp]: "glob_plugins d (hookenv_log m w) = glob_plugins d w"
  by (simp add: glob_plugins_def)

lemma glob_fs_cong: "fs v = fs u \<Longrightarrow> glob_plugins d v = glob_plugins d u"
  by (simp add: glob_plugins_def)

section \<open>Removing plugin files\<close>

lemma remove_plugin_effect:
  "\<exists>w'. remove_plugin p w = Inr w' \<and>
        (\<forall>q. map_of (fs w') q
              = (if q = p \<and> map_of (fs w) q = Some File then None else map_of (fs w) q))"
  by (auto simp: remove_plugin_def os_path_isfile_def os_remove_def map_of_filter_ne)

lemma remove_plugins_effect:
  "\<exists>w'. remove_plugins ps w = Inr w' \<and>
        (\<forall>q. map_of (fs w') q
              = (if q \<in> set ps \<and> map_of (fs w) q = Some File then None else map_of (fs w) q))"
proof (induction ps arbitrary: w)
  case Nil
  then show ?case by simp
next
  case (Cons p ps)
  from remove_plugin_effect [of p w] obtain w1
    where w1: "remove_plugin p w = Inr w1"
      "\<And>q. map_of (fs w1) q
              = (if q = p \<and> map_of (fs w) q = Some File then None else map_of (fs w) q)"
    by blast
  from Cons.IH [of w1] obtain w2
    where w2: "remove_plugins ps w1 = Inr w2"
      "\<And>q. map_of (fs w2) q
              = (if q \<in> set ps \<and> map_of (fs w1) q = Some File then None else map_of (fs w1) q)"
    by blast
  from w1(1) w2(1) have "remove_plugins (p # ps) w = Inr w2" by simp
  moreover have "map_of (fs w2) q
      = (if q \<in> set (p # ps) \<and> map_of (fs w) q = Some File then None else map_of (fs w) q)" for q
    by (simp add: w2(2) w1(2))
  ultimately show ?case by blast
qed


text \<open>
  C9. \<open>_remove_plugin\<close> on a path that is not an existing regular file (a missing path or
  a directory) returns without raising and leaves the world as it was, the log included;
  on a regular file it returns too. \<open>_remove_plugins\<close> over any list of paths returns
  without raising, and afterwards exactly the listed paths that were regular files are
  gone: every other path is what it was.
\<close>

theorem remove_plugin_missing_noop:
  "(if os_path_isfile p w then \<exists>w'. remove_plugin p w = Inr w' else remove_plugin p w = Inr w)
   \<and> (\<exists>w'. remove_plugins ps w = Inr w'
          \<and> (\<forall>q. map_of (fs w') q
                 = (if q \<in> set ps \<and> map_of (fs w) q = Some File then None
                    else map_of (fs w) q)))"
  using remove_plugin_effect [of p w] remove_plugins_effect [of ps w]
  by (auto simp: remove_plugin_def)

theorem remove_plugin_missing_noop_witness:
  "remove_plugin ''/var/lib/jenkins/plugins/missing.jpi'' demo_world = Inr demo_world
   \<and> (\<exists>w'. remove_plugins [''/var/lib/jenkins/plugins/missing.jpi'', ''/var/lib/jenkins/plugins'',
                            ''/var/lib/jenkins/plugins/unused.jpi''] demo_world = Inr w'
          \<and> map_of (fs w') ''/var/lib/jenkins/plugins/unused.jpi'' = None
          \<and> map_of (fs w') ''/var/lib/jenkins/plugins'' = Some Dir)"
proof -
  let ?ps = "[''/var/lib/jenkins/plugins/missing.jpi'', ''/var/lib/jenkins/plugins'',
              ''/var/lib/jenkins/plugins/unused.jpi'']"
  note t = remove_plugin_missing_noop [of "''/var/lib/jenkins/plugins/missing.jpi''" demo_world ?ps]
  have "\<not> os_path_isfile ''/var/lib/jenkins/plugins/missing.jpi'' demo_world"
    by (simp add: os_path_isfile_def demo_world_def)
  with t have a: "remove_plugin ''/var/lib/jenkins/plugins/missing.jpi'' demo_world
                    = Inr demo_world"
    by simp
  from t obtain w' where w': "remove_plugins ?ps demo_world = Inr w'"
    and eff: "\<And>q. map_of (fs w') q
                = (if q \<in> set ?ps \<and> map_of (fs demo_world) q = Some File then None
                   else map_of (fs demo_world) q)"
    by blast
  have "map_of (fs w') ''/var/lib/jenkins/plugins/unused.jpi'' = None"
    and "map_of (fs w') ''/var/lib/jenkins/plugins'' = Some Dir"
    by (simp_all add: eff demo_world_def)
  with a w' show ?thesis by blast
qed


section \<open>Installing plugins\<close>

lemma call_download_plugin_keeps:
  assumes "call_download_plugin uc plugin dst w = (r, w')"
  shows "(os_path_isfile q w \<longrightarrow> os_path_isfile q w') \<and> messages w' = messages w"
  using assms
  by (auto simp: call_download_plugin_def Let_def os_path_isfile_def place_file_def
           map_of_filter_ne split: sum.splits pyret.splits if_splits)

lemma install_plugin_keeps:
  assumes "install_plugin e uc plugin update w = (r, w')"
  shows "(os_path_isfile q w \<longrightarrow> os_path_isfile q w') \<and> prefix (messages w) (messages w')"
proof (cases "get_latest_version uc plugin")
  case (Inl err)
  with assms show ?thesis by (simp add: install_plugin_def)
next
  case (Inr latest)
  show ?thesis
  proof (cases "py_not (get_plugin_version (Api e) plugin)
                  \<or> (update \<and> get_plugin_version (Api e) plugin \<noteq> Some latest)")
    case True
    with assms Inr have "call_download_plugin uc plugin (PLUGINS e)
        (hookenv_log (''Installing plugin '' @ plugin @ ''-'' @ latest) w) = (r, w')"
      by (simp add: install_plugin_def)
    from call_download_plugin_keeps [OF this, of q] show ?thesis by simp
  next
    case False
    with assms Inr show ?thesis by (auto simp: install_plugin_def)
  qed
qed

lemma install_plugins_loop_keeps:
  "install_plugins_loop e uc update ps acc w = (r, w') \<Longrightarrow>
     (os_path_isfile q w \<longrightarrow> os_path_isfile q w') \<and> prefix (messages w) (messages w')"
proof (induction ps arbitrary: acc w)
  case Nil
  then show ?case by simp
next
  case (Cons p ps)
  obtain r1 w1 where step: "install_plugin e uc p update w = (r1, w1)"
    by (cases "install_plugin e uc p update w")
  note k1 = install_plugin_keeps [OF step, of q]
  show ?case
  proof (cases r1)
    case (Inl err)
    with Cons.prems step k1 show ?thesis by simp
  next
    case (Inr ret)
    show ?thesis
    proof (cases "ret = RNone")
      case True
      with Cons.prems step Inr have "install_plugins_loop e uc update ps acc w1 = (r, w')"
        by simp
      from Cons.IH [OF this] k1 show ?thesis by (auto intro: prefix_order.trans)
    next
      case False
      show ?thesis
      proof (cases "truthy ret")
        case True
        with Cons.prems step Inr False obtain acc'
          where "install_plugins_loop e uc update ps acc' w1 = (r, w')"
          by (cases ret) auto
        from Cons.IH [OF this] k1 show ?thesis by (auto intro: prefix_order.trans)
      next
        case nt: False
        with Cons.prems step Inr False
        have "install_plugins_loop e uc update ps acc
                (hookenv_log (''Failed to download '' @ p) w1) = (r, w')"
          by (cases ret) auto
        from Cons.IH [OF this] k1 show ?thesis
          by (auto intro: prefix_order.trans dest: append_prefixD)
      qed
    qed
  qed
qed

lemma install_plugins_keeps:
  assumes "install_plugins e uc ps w = (r, w')"
  shows "(os_path_isfile q w \<longrightarrow> os_path_isfile q w') \<and> prefix (messages w) (messages w')"
  using install_plugins_loop_keeps [OF assms [unfolded install_plugins_def], of q]
  by (auto dest: append_prefixD)

lemma demo_latest: "get_latest_version demo_uc p = Inr ''1.0''"
  by (simp add: get_latest_version_def get_plugin_info_def demo_uc_def)


text \<open>
  C7. When the index gives a latest version for the plugin, \<open>_install_plugin\<close> calls
  \<open>download_plugin\<close> (once, for this plugin and into \<open>paths.PLUGINS\<close>, returning what the
  call returns) if and only if the Api reports no installed version, or auto-update is on
  and the installed version differs from the latest one. In every other case it returns
  \<open>None\<close>, calls no download and leaves the files as they were.
\<close>

theorem install_plugin_decision:
  assumes "get_latest_version uc plugin = Inr latest"
  shows "downloads (snd (install_plugin e uc plugin update w))
           = (if py_not (get_plugin_version (Api e) plugin)
                 \<or> (update \<and> get_plugin_version (Api e) plugin \<noteq> Some latest)
              then downloads w @ [plugin] else downloads w)
         \<and> (if py_not (get_plugin_version (Api e) plugin)
                 \<or> (update \<and> get_plugin_version (Api e) plugin \<noteq> Some latest)
             then fst (install_plugin e uc plugin update w)
                    = download_plugin uc plugin (PLUGINS e)
             else fst (install_plugin e uc plugin update w) = Inr RNone
                  \<and> fs (snd (install_plugin e uc plugin update w)) = fs w)"
  using assms
  by (auto simp: install_plugin_def call_download_plugin_def Let_def place_file_def
           split: sum.splits pyret.splits)

theorem install_plugin_decision_witness:
  "downloads (snd (install_plugin (demo_env ''no'') demo_uc ''git'' False demo_world)) = [''git'']
   \<and> fst (install_plugin (demo_env ''no'') demo_uc ''git'' False demo_world)
       = Inr (RPath ''/var/lib/jenkins/plugins/git.jpi'')
   \<and> downloads (snd (install_plugin (demo_env ''no'') demo_uc ''instance-identity'' False
                      demo_world)) = []
   \<and> fst (install_plugin (demo_env ''no'') demo_uc ''instance-identity'' False demo_world)
       = Inr RNone"
  using install_plugin_decision [OF demo_latest, of "demo_env ''no''" "''git''" False demo_world]
    install_plugin_decision [OF demo_latest, of "demo_env ''no''" "''instance-identity''" False
      demo_world]
  by (simp add: demo_env_def demo_api_def demo_uc_def demo_world_def py_not_def)


section \<open>\<open>install\<close>\<close>

text \<open>
  \<open>install\<close> once both expansions have returned a pair and \<open>_install_plugins\<close> has run;
  \<open>w1\<close> is the world after the first messages.
\<close>

lemma install_unfold:
  assumes p1: "get_plugins_to_install uc (Api e) (stack_frames e) (requested_plugins arg)
                 = Inr (plugin_names, incompatible)"
    and p2: "get_plugins_to_install uc (Api e) (stack_frames e)
               (PyList (py_split (cfg_plugins (hookenv_config e)))) = Inr configured"
    and w1: "w1 = (if length incompatible \<noteq> 0
                   then hookenv_log (incompatible_message incompatible)
                          (hookenv_log ''Starting plugins installation process'' w)
                   else hookenv_log ''Starting plugins installation process'' w)"
    and i3: "install_plugins e uc plugin_names (host_mkdir (PLUGINS e) w1) = (r3, w3)"
  shows "install e uc arg w =
           (case r3 of
              Inl err \<Rightarrow>
                (Inl err,
                 hookenv_log ''Plugin installation failed, check logs for details'' w3)
            | Inr plugin_paths \<Rightarrow>
                (case reconcile e configured
                        (glob_plugins (PLUGINS e) (host_mkdir (PLUGINS e) w1)) w3 of
                   (Inl err, w4) \<Rightarrow> (Inl err, w4)
                 | (Inr installed, w4) \<Rightarrow>
                     (Inr (installed, incompatible), Api_restart w4)))"
proof (cases r3)
  case (Inl err)
  with i3 [unfolded w1] show ?thesis
    by (simp only: install_def Let_def p1 p2 sum.case prod.case w1)
next
  case (Inr plugin_paths)
  with i3 [unfolded w1] show ?thesis
    by (simp only: install_def Let_def p1 p2 sum.case prod.case w1)
qed

lemma w1_keeps:
  assumes "w1 = (if length incompatible \<noteq> 0
                   then hookenv_log (incompatible_message incompatible)
                          (hookenv_log ''Starting plugins installation process'' w)
                   else hookenv_log ''Starting plugins installation process'' w)"
  shows "fs w1 = fs w" and "downloads w1 = downloads w"
  using assms by simp_all

lemma install_returns_cases:
  assumes "install e uc arg w = (Inr r, w')"
  shows "\<exists>plugin_names incompatible configured plugin_paths w1 w3 w4 installed.
           get_plugins_to_install uc (Api e) (stack_frames e) (requested_plugins arg)
             = Inr (plugin_names, incompatible)
         \<and> get_plugins_to_install uc (Api e) (stack_frames e)
               (PyList (py_split (cfg_plugins (hookenv_config e))))
             = Inr configured
         \<and> fs w1 = fs w
         \<and> install_plugins e uc plugin_names (host_mkdir (PLUGINS e) w1) = (Inr plugin_paths, w3)
         \<and> reconcile e configured (glob_plugins (PLUGINS e) (host_mkdir (PLUGINS e) w1)) w3
             = (Inr installed, w4)
         \<and> r = (installed, incompatible) \<and> w' = Api_restart w4"
proof -
  let ?w0 = "hookenv_log ''Starting plugins installation process'' w"
  from assms obtain plugin_names incompatible
    where p1: "get_plugins_to_install uc (Api e) (stack_frames e) (requested_plugins arg)
                 = Inr (plugin_names, incompatible)"
    by (auto simp: install_def Let_def split: sum.splits)
  define w1 where "w1 = (if length incompatible \<noteq> 0
                          then hookenv_log (incompatible_message incompatible) ?w0 else ?w0)"
  from assms p1 obtain configured
    where p2: "get_plugins_to_install uc (Api e) (stack_frames e)
                 (PyList (py_split (cfg_plugins (hookenv_config e)))) = Inr configured"
    by (auto simp: install_def Let_def split: sum.splits)
  let ?w2 = "host_mkdir (PLUGINS e) w1"
  obtain r3 w3 where i3: "install_plugins e uc plugin_names ?w2 = (r3, w3)"
    by (cases "install_plugins e uc plugin_names ?w2")
  note unf = install_unfold [OF p1 p2 w1_def i3]
  from assms unf obtain plugin_paths where r3: "r3 = Inr plugin_paths"
    by (cases r3) auto
  obtain r4 w4 where i4: "reconcile e configured (glob_plugins (PLUGINS e) ?w2) w3 = (r4, w4)"
    by (cases "reconcile e configured (glob_plugins (PLUGINS e) ?w2) w3")
  from assms unf r3 i4 obtain installed where r4: "r4 = Inr installed"
    by (cases r4) auto
  from assms unf r3 i4 r4 have "r = (installed, incompatible)" "w' = Api_restart w4"
    by auto
  with p1 p2 w1_keeps(1) [OF w1_def] i3 r3 i4 r4 show ?thesis by blast
qed


subsection \<open>The reconciliation of unlisted files\<close>

lemma reconcile_disabled:
  assumes "cfg_remove_unlisted_plugins (hookenv_config e) \<noteq> ''yes''"
  shows "fs (snd (reconcile e cp existing w)) = fs w"
    and "\<exists>installed. fst (reconcile e cp existing w) = Inr installed"
  using assms by (simp_all add: reconcile_def Let_def)

lemma reconcile_installed_subset:
  assumes "reconcile e cp existing w = (Inr installed, w4)"
  shows "set installed \<subseteq> set existing"
  using assms
  by (auto simp: reconcile_def Let_def split: if_splits sum.splits)

lemma reconcile_unlisted:
  assumes ex: "p \<in> set existing"
    and nl: "\<not> endswith p (plugin_file_names cp)"
    and isf: "os_path_isfile p w"
  shows "if cfg_remove_unlisted_plugins (hookenv_config e) = ''yes''
         then \<exists>installed w4. reconcile e cp existing w = (Inr installed, w4)
                \<and> map_of (fs w4) p = None
         else \<exists>installed unlisted. p \<in> set unlisted
                \<and> reconcile e cp existing w
                    = (Inr installed, hookenv_log (unlisted_message unlisted) w)"
proof -
  let ?installed = "filter (\<lambda>x. endswith x (plugin_file_names cp)) existing"
  let ?unlisted = "filter (\<lambda>x. x \<notin> set ?installed) existing"
  from ex nl have mem: "p \<in> set ?unlisted" by simp
  have ne: "?unlisted \<noteq> []"
  proof
    assume "?unlisted = []"
    with mem show False by (metis empty_iff list.set(1))
  qed
  show ?thesis
  proof (cases "cfg_remove_unlisted_plugins (hookenv_config e) = ''yes''")
    case True
    from remove_plugins_effect [of ?unlisted w] obtain w4
      where w4: "remove_plugins ?unlisted w = Inr w4"
        "map_of (fs w4) p = (if p \<in> set ?unlisted \<and> map_of (fs w) p = Some File then None
                             else map_of (fs w) p)"
      by blast
    from w4(2) mem isf have "map_of (fs w4) p = None"
      by (simp add: os_path_isfile_def)
    moreover from True ne w4(1) have "reconcile e cp existing w = (Inr ?installed, w4)"
      by (simp add: reconcile_def Let_def)
    ultimately show ?thesis using True by simp
  next
    case False
    with ne have "reconcile e cp existing w
                    = (Inr ?installed, hookenv_log (unlisted_message ?unlisted) w)"
      by (simp add: reconcile_def Let_def)
    with mem have "\<exists>installed unlisted. p \<in> set unlisted
                \<and> reconcile e cp existing w
                    = (Inr installed, hookenv_log (unlisted_message unlisted) w)"
      by blast
    with False show ?thesis by simp
  qed
qed


text \<open>
  Every name in \<open>plugin_file_names\<close> ends in \<open>].jpi\<close>, the end of a printed list, so the
  path of \<open>unused.jpi\<close> ends with none of them.
\<close>

lemma not_suffix_bracket:
  "\<not> suffix (a @ '']'' @ ''.jpi'') (d @ ''/unused.jpi'')"
proof
  assume "suffix (a @ '']'' @ ''.jpi'') (d @ ''/unused.jpi'')"
  then obtain zs where "d @ ''/unused.jpi'' = zs @ a @ '']'' @ ''.jpi''"
    by (auto simp: suffix_def)
  then have "(d @ ''/unuse'') @ ''d.jpi'' = (zs @ a) @ ''].jpi''" by simp
  then have "''d.jpi'' = ''].jpi''"
    using append_eq_append_conv [of "''d.jpi''" "''].jpi''" "d @ ''/unuse''" "zs @ a"] by simp
  then show False by simp
qed

lemma unused_not_listed:
  "\<not> endswith (d @ ''/unused.jpi'') (plugin_file_names cp)"
  using not_suffix_bracket [of "''/['' @ py_join '', '' (map py_repr (fst cp))" d]
    not_suffix_bracket [of "''/['' @ py_join '', '' (map py_repr (snd cp))" d]
  by (simp add: endswith_def plugin_file_names_def py_str_list_def)

lemma entry_name_unused: "entry_name d (d @ ''/unused.jpi'') = Some ''unused.jpi''"
  by (simp add: entry_name_def)

lemma plugin_pattern_unused: "plugin_pattern ''unused.jpi''"
  by (simp add: plugin_pattern_def suffix_to_prefix)

lemma unused_in_glob:
  assumes "os_path_isfile (d @ ''/unused.jpi'') w"
  shows "d @ ''/unused.jpi'' \<in> set (glob_plugins d w)"
proof -
  from assms have "(d @ ''/unused.jpi'', File) \<in> set (fs w)"
    by (simp add: os_path_isfile_def map_of_SomeD)
  then have "d @ ''/unused.jpi'' \<in> set (map fst (fs w))" by force
  then show ?thesis
    by (simp add: glob_plugins_def entry_name_unused plugin_pattern_unused)
qed


subsection \<open>Runs of the small installation\<close>

lemma demo_isfile: "os_path_isfile (PLUGINS (demo_env flag) @ ''/unused.jpi'') demo_world"
  by (simp add: demo_env_def demo_world_def os_path_isfile_def)

lemma demo_env_fields:
  "PLUGINS (demo_env flag) = ''/var/lib/jenkins/plugins''"
  "cfg_remove_unlisted_plugins (hookenv_config (demo_env flag)) = flag"
  "cfg_plugins (hookenv_config (demo_env flag)) = ''git''"
  "cfg_plugins_auto_update (hookenv_config (demo_env flag)) = False"
  "Api (demo_env flag) = demo_api"
  "stack_frames (demo_env flag) = 1000"
  by (simp_all add: demo_env_def)

lemma demo_install_yes:
  "case install (demo_env ''yes'') demo_uc (Some ''git'') demo_world of
     (Inr r, w') \<Rightarrow>
       r = ([], [''scm-api''])
       \<and> fs w' = [(''/var/lib/jenkins/plugins/git.jpi'', File), (''/var/lib/jenkins/plugins'', Dir)]
   | (Inl err, w') \<Rightarrow> False"
  by code_simp

lemma demo_install_no:
  "case install (demo_env ''no'') demo_uc (Some ''git'') demo_world of
     (Inr r, w') \<Rightarrow>
       r = ([], [''scm-api''])
       \<and> fs w' = [(''/var/lib/jenkins/plugins/git.jpi'', File), (''/var/lib/jenkins/plugins'', Dir),
                  (''/var/lib/jenkins/plugins/unused.jpi'', File)]
   | (Inl err, w') \<Rightarrow> False"
  by code_simp

lemma case_run_obtain:
  assumes "case x of (Inr r, w') \<Rightarrow> P r w' | (Inl err, w') \<Rightarrow> False"
  obtains r w' where "x = (Inr r, w')" and "P r w'"
proof -
  obtain res w' where x: "x = (res, w')" by (cases x)
  show ?thesis
  proof (cases res)
    case (Inl err)
    with assms x show ?thesis by simp
  next
    case (Inr r)
    with assms x that show ?thesis by simp
  qed
qed

text \<open>
  The formatted names come from the two lists of the pair, not from the plugin names in
  them, so a file of a configured plugin is unlisted as well: with \<open>git\<close> configured and
  removal enabled, \<open>git.jpi\<close> is removed, also right after this run has downloaded it.
\<close>

lemma listed_plugin_file_removed:
  "os_path_isfile ''/var/lib/jenkins/plugins/git.jpi''
     (place_file ''/var/lib/jenkins/plugins/git.jpi'' demo_world)
   \<and> fst (install (demo_env ''yes'') demo_uc (Some ''git'')
            (place_file ''/var/lib/jenkins/plugins/git.jpi'' demo_world))
       = Inr ([], [''scm-api''])
   \<and> fs (snd (install (demo_env ''yes'') demo_uc (Some ''git'')
                (place_file ''/var/lib/jenkins/plugins/git.jpi'' demo_world)))
       = [(''/var/lib/jenkins/plugins'', Dir)]"
  by code_simp

subsection \<open>Properties of every run\<close>

text \<open>
  C6. When \<open>remove-unlisted-plugins\<close> is not \<open>yes\<close>, every regular file that exists before
  \<open>install\<close> still exists after it, whether the run returns or raises, and the
  reconciliation of lines 88 to 99 leaves the files exactly as it found them.
\<close>

theorem unlisted_kept_when_disabled:
  assumes dis: "cfg_remove_unlisted_plugins (hookenv_config e) \<noteq> ''yes''"
    and run: "install e uc arg w = (r, w')"
    and present: "os_path_isfile q w"
  shows "os_path_isfile q w'
         \<and> fs (snd (reconcile e configured existing w3)) = fs w3"
proof -
  let ?w0 = "hookenv_log ''Starting plugins installation process'' w"
  have "os_path_isfile q w'"
  proof (cases "get_plugins_to_install uc (Api e) (stack_frames e) (requested_plugins arg)")
    case (Inl err)
    with run present show ?thesis by (auto simp: install_def)
  next
    case (Inr pr)
    obtain plugin_names incompatible where pr: "pr = (plugin_names, incompatible)"
      by (cases pr)
    define w1 where "w1 = (if length incompatible \<noteq> 0
                        then hookenv_log (incompatible_message incompatible) ?w0 else ?w0)"
    have f1: "os_path_isfile q w1" using present by (simp add: w1_def)
    show ?thesis
    proof (cases "get_plugins_to_install uc (Api e) (stack_frames e)
                    (PyList (py_split (cfg_plugins (hookenv_config e))))")
      case c: (Inl err)
      with run Inr pr f1 show ?thesis
        by (auto simp: install_def w1_def Let_def split: if_splits)
    next
      case c: (Inr cp)
      let ?w2 = "host_mkdir (PLUGINS e) w1"
      obtain r3 v3 where i3: "install_plugins e uc plugin_names ?w2 = (r3, v3)"
        by (cases "install_plugins e uc plugin_names ?w2")
      from install_plugins_keeps [OF i3, of q] f1 have f3: "os_path_isfile q v3"
        by (simp add: isfile_host_mkdir)
      from Inr pr have p1': "get_plugins_to_install uc (Api e) (stack_frames e)
             (requested_plugins arg) = Inr (plugin_names, incompatible)" by simp
      note unf = install_unfold [OF p1' c w1_def i3]
      show ?thesis
      proof (cases r3)
        case (Inl err)
        with run unf f3 show ?thesis by auto
      next
        case paths: (Inr plugin_paths)
        let ?rc = "reconcile e cp (glob_plugins (PLUGINS e) ?w2) v3"
        obtain r4 w4 where i4: "?rc = (r4, w4)" by (cases ?rc)
        from reconcile_disabled [OF dis, of cp "glob_plugins (PLUGINS e) ?w2" v3] i4
        obtain installed where rc: "fs w4 = fs v3" "r4 = Inr installed"
          by auto
        from run unf paths i4 rc(2) have "w' = Api_restart w4"
          by simp
        with rc(1) f3 show ?thesis by (simp add: os_path_isfile_def)
      qed
    qed
  qed
  with reconcile_disabled(1) [OF dis] show ?thesis by simp
qed

theorem unlisted_kept_when_disabled_witness:
  "os_path_isfile ''/var/lib/jenkins/plugins/unused.jpi''
     (snd (install (demo_env ''no'') demo_uc (Some ''git'') demo_world))
   \<and> fs (snd (reconcile (demo_env ''no'') ([''git''], [])
                [''/var/lib/jenkins/plugins/unused.jpi''] demo_world)) = fs demo_world"
proof -
  have dis: "cfg_remove_unlisted_plugins (hookenv_config (demo_env ''no'')) \<noteq> ''yes''"
    by (simp add: demo_env_fields)
  from demo_install_no obtain r w'
    where run: "install (demo_env ''no'') demo_uc (Some ''git'') demo_world = (Inr r, w')"
    by (rule case_run_obtain)
  from unlisted_kept_when_disabled [OF dis run demo_isfile]
  show ?thesis by (simp add: run demo_env_fields)
qed

text \<open>
  C4. Let \<open>unused.jpi\<close> be a regular file in the plugin directory and let \<open>install\<close>
  return. If \<open>remove-unlisted-plugins\<close> is \<open>yes\<close>, the file is gone afterwards. Otherwise it
  is still there, and the last message logged is the \<open>Unlisted plugins\<close> message for a set of
  paths that holds it. The statement holds for every configured list, in particular for
  those whose closure does not hold \<open>unused\<close>.
\<close>

theorem unused_plugin_reconciled:
  assumes isf: "os_path_isfile (PLUGINS e @ ''/unused.jpi'') w"
    and run: "install e uc arg w = (Inr r, w')"
  shows "if cfg_remove_unlisted_plugins (hookenv_config e) = ''yes''
         then map_of (fs w') (PLUGINS e @ ''/unused.jpi'') = None
         else os_path_isfile (PLUGINS e @ ''/unused.jpi'') w'
              \<and> (\<exists>unlisted. PLUGINS e @ ''/unused.jpi'' \<in> set unlisted
                     \<and> last (messages w') = unlisted_message unlisted)"
proof -
  let ?p = "PLUGINS e @ ''/unused.jpi''"
  from install_returns_cases [OF run] obtain plugin_names configured
      plugin_paths w1 w3 w4 installed
    where fs1: "fs w1 = fs w"
      and i3: "install_plugins e uc plugin_names (host_mkdir (PLUGINS e) w1)
                 = (Inr plugin_paths, w3)"
      and i4: "reconcile e configured
                 (glob_plugins (PLUGINS e) (host_mkdir (PLUGINS e) w1)) w3 = (Inr installed, w4)"
      and w': "w' = Api_restart w4"
    by blast
  from isf fs1 have "os_path_isfile ?p w1" by (simp add: os_path_isfile_def)
  then have f2: "os_path_isfile ?p (host_mkdir (PLUGINS e) w1)" by (rule isfile_host_mkdir)
  then have ex: "?p \<in> set (glob_plugins (PLUGINS e) (host_mkdir (PLUGINS e) w1))"
    by (rule unused_in_glob)
  from install_plugins_keeps [OF i3, of ?p] f2 have f3: "os_path_isfile ?p w3" by simp
  note rc = reconcile_unlisted [where cp = configured and e = e, OF ex unused_not_listed f3]
  show ?thesis
  proof (cases "cfg_remove_unlisted_plugins (hookenv_config e) = ''yes''")
    case True
    with rc i4 have "map_of (fs w4) ?p = None" by auto
    with True w' show ?thesis by simp
  next
    case False
    with rc i4 obtain unlisted where u: "?p \<in> set unlisted"
      "w4 = hookenv_log (unlisted_message unlisted) w3" by auto
    with f3 w' have "os_path_isfile ?p w'" "last (messages w') = unlisted_message unlisted"
      by (simp_all add: os_path_isfile_def)
    with False u(1) show ?thesis by auto
  qed
qed

theorem unused_plugin_reconciled_witness:
  "map_of (fs (snd (install (demo_env ''yes'') demo_uc (Some ''git'') demo_world)))
     ''/var/lib/jenkins/plugins/unused.jpi'' = None
   \<and> os_path_isfile ''/var/lib/jenkins/plugins/unused.jpi''
       (snd (install (demo_env ''no'') demo_uc (Some ''git'') demo_world))"
proof -
  from demo_install_yes obtain r w'
    where yes: "install (demo_env ''yes'') demo_uc (Some ''git'') demo_world = (Inr r, w')"
    by (rule case_run_obtain)
  from demo_install_no obtain r2 w2
    where no: "install (demo_env ''no'') demo_uc (Some ''git'') demo_world = (Inr r2, w2)"
    by (rule case_run_obtain)
  from unused_plugin_reconciled [OF demo_isfile yes] unused_plugin_reconciled [OF demo_isfile no]
  show ?thesis by (simp add: yes no demo_env_fields)
qed

text \<open>
  C5, amended. When \<open>install\<close> returns, the first component of the pair holds only paths
  that the glob finds in the plugin directory before the run (what this run downloads is
  not added), and the second component is the excluded list of the expansion of the
  requested plugins.
\<close>

theorem install_returns_listed_existing:
  assumes run: "install e uc arg w = (Inr (installed, excluded), w')"
  shows "set installed \<subseteq> set (glob_plugins (PLUGINS e) w)
         \<and> (\<exists>to_install. get_plugins_to_install uc (Api e) (stack_frames e)
                            (requested_plugins arg) = Inr (to_install, excluded))"
proof -
  from install_returns_cases [OF run] obtain plugin_names incompatible configured
      w1 w3 w4 installed'
    where p1: "get_plugins_to_install uc (Api e) (stack_frames e) (requested_plugins arg)
                 = Inr (plugin_names, incompatible)"
      and fs1: "fs w1 = fs w"
      and i4: "reconcile e configured
                 (glob_plugins (PLUGINS e) (host_mkdir (PLUGINS e) w1)) w3 = (Inr installed', w4)"
      and r: "(installed, excluded) = (installed', incompatible)"
    by blast
  from reconcile_installed_subset [OF i4]
  have "set installed' \<subseteq> set (glob_plugins (PLUGINS e) w)"
    by (simp add: glob_host_mkdir glob_fs_cong [OF fs1])
  with p1 r show ?thesis by simp
qed

theorem install_returns_listed_existing_witness:
  "set [] \<subseteq> set (glob_plugins (PLUGINS (demo_env ''no'')) demo_world)
   \<and> (\<exists>to_install. get_plugins_to_install demo_uc (Api (demo_env ''no''))
                       (stack_frames (demo_env ''no''))
                       (requested_plugins (Some ''git'')) = Inr (to_install, [''scm-api'']))"
proof -
  from demo_install_no obtain r w'
    where run: "install (demo_env ''no'') demo_uc (Some ''git'') demo_world = (Inr r, w')"
      and r: "r = ([], [''scm-api''])"
    by (rule case_run_obtain) simp
  from install_returns_listed_existing [OF run [unfolded r]] show ?thesis .
qed

text \<open>
  C5 as first stated, with the files now present as first component, fails on the small
  installation with removal disabled: \<open>install("git")\<close> downloads \<open>git.jpi\<close> and returns
  an empty first component, while the directory holds \<open>git.jpi\<close> and \<open>unused.jpi\<close>.
\<close>

theorem install_returns_not_present_files:
  "fst (install (demo_env ''no'') demo_uc (Some ''git'') demo_world)
       = Inr ([], [''scm-api''])
   \<and> glob_plugins (PLUGINS (demo_env ''no''))
        (snd (install (demo_env ''no'') demo_uc (Some ''git'') demo_world))
       = [''/var/lib/jenkins/plugins/git.jpi'', ''/var/lib/jenkins/plugins/unused.jpi'']"
  by code_simp

subsection \<open>A run without plugins\<close>

text \<open>
  Removal and reconciliation never raise and touch neither the restart count nor the
  download trace; \<open>_install_plugins\<close> returns when the index has a version for every plugin
  and no download raises.
\<close>

lemma remove_plugin_counters:
  "remove_plugin p w = Inr w' \<Longrightarrow> downloads w' = downloads w \<and> restarts w' = restarts w"
  by (auto simp: remove_plugin_def os_remove_def hookenv_log_def
           split: if_splits option.splits ftype.splits)

lemma remove_plugins_counters:
  "remove_plugins ps w = Inr w' \<Longrightarrow> downloads w' = downloads w \<and> restarts w' = restarts w"
proof (induction ps arbitrary: w)
  case Nil
  then show ?case by simp
next
  case (Cons p ps)
  from Cons.prems obtain w1 where w1: "remove_plugin p w = Inr w1" "remove_plugins ps w1 = Inr w'"
    by (auto split: sum.splits)
  from remove_plugin_counters [OF w1(1)] Cons.IH [OF w1(2)] show ?case by simp
qed

lemma reconcile_returns:
  "\<exists>installed w4. reconcile e cp existing w = (Inr installed, w4)
       \<and> downloads w4 = downloads w \<and> restarts w4 = restarts w"
proof -
  let ?installed = "filter (\<lambda>x. endswith x (plugin_file_names cp)) existing"
  let ?unlisted = "filter (\<lambda>x. x \<notin> set ?installed) existing"
  from remove_plugins_effect [of ?unlisted w] obtain w1
    where w1: "remove_plugins ?unlisted w = Inr w1" by blast
  from remove_plugins_counters [OF w1] w1 show ?thesis
    by (simp add: reconcile_def Let_def hookenv_log_def)
qed

lemma install_plugin_returns:
  assumes lat: "get_latest_version uc p = Inr latest"
    and dl: "download_plugin uc p (PLUGINS e) = Inr r"
  shows "\<exists>ret w'. install_plugin e uc p update w = (Inr ret, w')
           \<and> restarts w' = restarts w
           \<and> downloads w'
               = downloads w
                 @ (if py_not (get_plugin_version (Api e) p)
                       \<or> (update \<and> get_plugin_version (Api e) p \<noteq> Some latest)
                    then [p] else [])"
  using assms
  by (cases r)
     (auto simp: install_plugin_def call_download_plugin_def Let_def place_file_def
        hookenv_log_def)

lemma install_plugins_loop_returns:
  assumes lat: "\<And>p. p \<in> set ps \<Longrightarrow> \<exists>v. get_latest_version uc p = Inr v"
    and dl: "\<And>p. p \<in> set ps \<Longrightarrow> \<exists>r. download_plugin uc p (PLUGINS e) = Inr r"
  shows "\<exists>paths w'. install_plugins_loop e uc update ps acc w = (Inr paths, w')
           \<and> restarts w' = restarts w
           \<and> downloads w'
               = downloads w
                 @ filter (\<lambda>p. case get_latest_version uc p of
                                 Inl err \<Rightarrow> False
                               | Inr latest \<Rightarrow>
                                   py_not (get_plugin_version (Api e) p)
                                   \<or> (update \<and> get_plugin_version (Api e) p \<noteq> Some latest)) ps"
  using assms
proof (induction ps arbitrary: acc w)
  case Nil
  then show ?case by simp
next
  case (Cons p ps)
  from Cons.prems(1) [of p] obtain latest where lat: "get_latest_version uc p = Inr latest"
    by auto
  from Cons.prems(2) [of p] obtain r where dl: "download_plugin uc p (PLUGINS e) = Inr r"
    by auto
  from install_plugin_returns [OF lat dl, of update w] obtain ret w1
    where s: "install_plugin e uc p update w = (Inr ret, w1)"
      and c: "restarts w1 = restarts w"
        "downloads w1 = downloads w
           @ (if py_not (get_plugin_version (Api e) p)
                 \<or> (update \<and> get_plugin_version (Api e) p \<noteq> Some latest)
              then [p] else [])"
    by blast
  have ih: "\<exists>paths w'. install_plugins_loop e uc update ps acc' v = (Inr paths, w')
           \<and> restarts w' = restarts v
           \<and> downloads w'
               = downloads v
                 @ filter (\<lambda>p. case get_latest_version uc p of
                                 Inl err \<Rightarrow> False
                               | Inr latest \<Rightarrow>
                                   py_not (get_plugin_version (Api e) p)
                                   \<or> (update \<and> get_plugin_version (Api e) p \<noteq> Some latest)) ps"
    for acc' v
    using Cons.prems by (intro Cons.IH) auto
  show ?case
  proof (cases ret)
    case RNone
    from ih [of acc w1] s RNone c lat show ?thesis by auto
  next
    case RFalse
    from ih [of acc "hookenv_log (''Failed to download '' @ p) w1"] s RFalse c lat
    show ?thesis by (auto simp: hookenv_log_def)
  next
    case (RPath q)
    show ?thesis
    proof (cases "q = []")
      case True
      from ih [of acc "hookenv_log (''Failed to download '' @ p) w1"] s RPath True c lat
      show ?thesis by (auto simp: hookenv_log_def)
    next
      case False
      from ih [of "if q \<in> set acc then acc else acc @ [q]" w1] s RPath False c lat
      show ?thesis by auto
    qed
  qed
qed

lemma demo_env_plan_required:
  "get_plugins_to_install demo_uc (Api (demo_env flag)) (stack_frames (demo_env flag))
     (Chain REQUIRED_PLUGINS) = Inr ([''instance-identity''], [])"
  by (simp add: demo_env_fields demo_plan_required)

lemma demo_env_plan_configured:
  "get_plugins_to_install demo_uc (Api (demo_env flag)) (stack_frames (demo_env flag))
     (PyList (py_split (cfg_plugins (hookenv_config (demo_env flag)))))
     = Inr ([''git''], [''scm-api''])"
  by (simp add: demo_env_fields demo_plan_configured)

lemma demo_download: "\<exists>r. download_plugin demo_uc p dst = Inr r"
  by (simp add: demo_uc_def)


lemma demo_install_none:
  "fst (install (demo_env ''no'') demo_uc None demo_world) = Inr ([], [])"
  by code_simp

text \<open>
  C10. For \<open>None\<close> and for the empty string, the iterable that \<open>install\<close> hands to
  \<open>_get_plugins_to_install\<close> is the chain of the required plugins alone, and the argument
  causes no error: when that expansion and the one of the configured list return, the
  index has a version for every plugin to install and no download raises, \<open>install\<close>
  returns. Its excluded list is the one of the expansion of the required plugins, Jenkins
  is restarted once, and the downloads are those that \<open>_install_plugin\<close> decides for the
  plugins to install of that expansion, in order.
\<close>

theorem install_without_plugins:
  assumes arg: "arg = None \<or> arg = Some []"
    and plan: "get_plugins_to_install uc (Api e) (stack_frames e) (Chain REQUIRED_PLUGINS)
                 = Inr (to_install, excluded)"
    and conf: "get_plugins_to_install uc (Api e) (stack_frames e)
                 (PyList (py_split (cfg_plugins (hookenv_config e)))) = Inr configured"
    and lat: "\<And>p. p \<in> set to_install \<Longrightarrow> \<exists>v. get_latest_version uc p = Inr v"
    and dl: "\<And>p. p \<in> set to_install \<Longrightarrow> \<exists>r. download_plugin uc p (PLUGINS e) = Inr r"
  shows "requested_plugins arg = Chain REQUIRED_PLUGINS
         \<and> (\<exists>installed w'. install e uc arg w = (Inr (installed, excluded), w')
                \<and> restarts w' = Suc (restarts w)
                \<and> downloads w'
                    = downloads w
                      @ filter (\<lambda>p. case get_latest_version uc p of
                                      Inl err \<Rightarrow> False
                                    | Inr latest \<Rightarrow>
                                        py_not (get_plugin_version (Api e) p)
                                        \<or> (cfg_plugins_auto_update (hookenv_config e)
                                            \<and> get_plugin_version (Api e) p \<noteq> Some latest))
                          to_install)"
proof -
  from arg have req: "requested_plugins arg = Chain REQUIRED_PLUGINS"
    by (auto simp: requested_plugins_def py_split_def)
  define w1 where "w1 = (if length excluded \<noteq> 0
                   then hookenv_log (incompatible_message excluded)
                          (hookenv_log ''Starting plugins installation process'' w)
                   else hookenv_log ''Starting plugins installation process'' w)"
  have c1: "downloads w1 = downloads w" "restarts w1 = restarts w"
    by (simp_all add: w1_def hookenv_log_def)
  let ?w2 = "host_mkdir (PLUGINS e) w1"
  have c2: "downloads ?w2 = downloads w" "restarts ?w2 = restarts w"
    using c1 by (simp_all add: host_mkdir_def)
  let ?need = "\<lambda>p. case get_latest_version uc p of
                      Inl err \<Rightarrow> False
                    | Inr latest \<Rightarrow>
                        py_not (get_plugin_version (Api e) p)
                        \<or> (cfg_plugins_auto_update (hookenv_config e)
                            \<and> get_plugin_version (Api e) p \<noteq> Some latest)"
  from install_plugins_loop_returns [of to_install uc e
      "cfg_plugins_auto_update (hookenv_config e)" "[]"
      "hookenv_log (''Installing plugins ('' @ py_join '' '' to_install @ '')'') ?w2"] lat dl
  obtain paths w3 where i3: "install_plugins e uc to_install ?w2 = (Inr paths, w3)"
    and c3: "restarts w3 = restarts w" "downloads w3 = downloads w @ filter ?need to_install"
    using c2 by (auto simp: install_plugins_def hookenv_log_def)
  from reconcile_returns [of e configured "glob_plugins (PLUGINS e) ?w2" w3]
  obtain installed w4
    where i4: "reconcile e configured (glob_plugins (PLUGINS e) ?w2) w3 = (Inr installed, w4)"
      and c4: "downloads w4 = downloads w3" "restarts w4 = restarts w3"
    by blast
  from install_unfold [OF plan [folded req] conf w1_def i3] i4
  have "install e uc arg w = (Inr (installed, excluded), Api_restart w4)" by simp
  moreover have "restarts (Api_restart w4) = Suc (restarts w)"
    "downloads (Api_restart w4) = downloads w @ filter ?need to_install"
    using c3 c4 by (simp_all add: Api_restart_def)
  ultimately show ?thesis using req by blast
qed


theorem install_without_plugins_witness:
  "requested_plugins None = Chain [''instance-identity'']
   \<and> fst (install (demo_env ''no'') demo_uc None demo_world) = Inr ([], [])
   \<and> (\<exists>installed w'. install (demo_env ''no'') demo_uc None demo_world = (Inr (installed, []), w')
          \<and> restarts w' = Suc 0 \<and> downloads w' = [])"
proof -
  have lat: "\<exists>v. get_latest_version demo_uc p = Inr v" for p
    using demo_latest by blast
  from install_without_plugins [of None demo_uc "demo_env ''no''" "[''instance-identity'']" "[]"
      "([''git''], [''scm-api''])" demo_world,
      OF _ demo_env_plan_required demo_env_plan_configured lat demo_download]
    demo_install_none
  show ?thesis
    by (simp add: REQUIRED_PLUGINS_def demo_env_fields demo_api_def demo_world_def
          demo_latest py_not_def)
qed

section \<open>\<open>Plugins.__init__\<close>\<close>

text \<open>An HTTP error status of the plugin site is reported as \<open>PluginSiteError\<close>.\<close>

lemma init_HTTPError_raises_PluginSiteError:
  assumes "cfg_plugins_site c \<noteq> ''https://updates.jenkins-ci.org/latest/''"
    and "urlopen n (cfg_plugins_site c @ ''/update-center.json'') = Some HTTPError"
  shows "fst (Plugins_init c n w) = Inl PluginSiteError"
  using assms by (simp add: Plugins_init_def Let_def except_HTTPError_def)

text \<open>
  C8. A plugin site whose host cannot be reached makes \<open>urlopen\<close> raise \<open>URLError\<close>, which
  the clause \<open>except urllib.error.HTTPError\<close> does not catch: the constructor raises
  \<open>URLError\<close>, not \<open>PluginSiteError\<close>.
\<close>

theorem init_unreachable_site_raises_URLError:
  "fst (Plugins_init unreachable_config unreachable_net demo_world) = Inl URLError"
  by (simp add: Plugins_init_def unreachable_config_def unreachable_net_def proxy_address_def
        except_HTTPError_def Let_def)

end
